theory Spec2Isabelle
  imports
    Complex_Main
    "HOL-Library.Word"
    "HOL-Library.Log_Nat"
    "HOL-Library.Multiset"
    "HOL-Library.AList"
    "HOL-Library.Char_ord"
    "HOL-Library.List_Lexorder"
begin

section \<open>The survey data frame\<close>

text \<open>
  The pipeline of \<^verbatim>\<open>src/pipeline.py\<close> works on a pandas data frame. A cell of the
  frame holds an integer of 64 bits (read through \<open>sint\<close>; a boolean counts as
  0 or 1), a text, or nothing (\<open>None\<close>, pandas' NaN). Texts are byte strings in
  UTF-8, whose bytewise order is the order of Python's strings. Where pandas
  sorts values, integers come in numeric order, texts in the order of strings,
  and in a column that holds both the integers come first. Cells that hold a
  fraction are not part of this development.
\<close>

datatype val = Int64 "64 word" | Text string

instantiation val :: linorder
begin

fun less_eq_val :: "val \<Rightarrow> val \<Rightarrow> bool" where
  "less_eq_val (Int64 a) (Int64 b) = (sint a \<le> sint b)"
| "less_eq_val (Int64 a) (Text t) = True"
| "less_eq_val (Text s) (Int64 b) = False"
| "less_eq_val (Text s) (Text t) = (s \<le> t)"

definition less_val :: "val \<Rightarrow> val \<Rightarrow> bool" where
  "less_val x y = (x \<le> y \<and> \<not> y \<le> x)"

instance
proof
  fix x y z :: val
  show "(x < y) = (x \<le> y \<and> \<not> y \<le> x)"
    by (simp add: less_val_def)
  show "x \<le> x"
    by (cases x) simp_all
  show "x \<le> y \<Longrightarrow> y \<le> z \<Longrightarrow> x \<le> z"
    by (cases x; cases y; cases z) simp_all
  show "x \<le> y \<Longrightarrow> y \<le> x \<Longrightarrow> x = y"
    by (cases x; cases y) (auto intro: signed_word_eqI [where 'a = int])
  show "x \<le> y \<or> y \<le> x"
    by (cases x; cases y) auto
qed

end

type_synonym cell = "val option"

text \<open>
  A frame has the names of its columns and its rows, in index order. A row has a
  cell for each of the six columns that the pipeline reads; the cell of a column
  that the frame does not have is never read.
\<close>

record row =
  policy_support :: cell
  gender :: cell
  race :: cell
  age_group :: cell
  education :: cell
  income :: cell

record frame =
  columns :: "string list"
  rows :: "row list"

datatype column = Gender | Race | Age_group | Education | Income

fun col_name :: "column \<Rightarrow> string" where
  "col_name Gender = ''gender''"
| "col_name Race = ''race''"
| "col_name Age_group = ''age_group''"
| "col_name Education = ''education''"
| "col_name Income = ''income''"

fun col_value :: "column \<Rightarrow> row \<Rightarrow> cell" where
  "col_value Gender r = gender r"
| "col_value Race r = race r"
| "col_value Age_group r = age_group r"
| "col_value Education r = education r"
| "col_value Income r = income r"

definition demographic_cols :: "column list" where
  "demographic_cols = [Gender, Race, Age_group, Education, Income]"

section \<open>The float64 numbers of pandas\<close>

text \<open>
  A float64 result is the rational number it stands for, or \<open>None\<close> for NaN.
  \<open>float64 q\<close> is the float64 nearest to \<open>q\<close>, a tie going to the even
  mantissa: \<open>exponent\<close> is the binary exponent of a positive number, 52 bits
  follow the leading one, and below \<open>2 powi - 1022\<close> the spacing stays that of
  the subnormal numbers. Infinity is not modelled; the numbers of a frame stay
  far below \<open>2 ^ 1024\<close>.
\<close>

definition rhe :: "rat \<Rightarrow> int" where
  "rhe x =
     (let f = \<lfloor>x\<rfloor>; d = x - of_int f
      in if d < 1 / 2 then f else if 1 / 2 < d then f + 1
         else if even f then f else f + 1)"

definition exponent :: "rat \<Rightarrow> int" where
  "exponent q =
     (let (a, b) = quotient_of q;
          d = int (floorlog 2 (nat a)) - int (floorlog 2 (nat b))
      in if 2 powi d \<le> q then d else d - 1)"

definition float64 :: "rat \<Rightarrow> rat" where
  "float64 q =
     (if q = 0 then 0
      else (let e = max (exponent \<bar>q\<bar>) (- 1022);
                u = 2 powi (e - 52)
            in sgn q * of_int (rhe (\<bar>q\<bar> / u)) * u))"

section \<open>Series reductions of pandas\<close>

text \<open>
  \<^verbatim>\<open>Series.count\<close> counts the cells that are present. \<^verbatim>\<open>Series.mean\<close> raises
  \<^verbatim>\<open>TypeError\<close> on a column that holds a text; on a column of numbers it skips
  the missing cells, and is NaN when nothing is left. The numbers are added up
  in float64 and the sum is divided by their count. The order of the additions
  is that of pandas; the model rounds the exact sum once, which is the same
  number whenever the absolute values add up to at most \<open>2 ^ 53\<close>, as they do
  for every column of zeros and ones.
\<close>

datatype error =
    FileNotFoundError string
  | KeyError string
  | TypeError
  | OSError string
  | PandasError string

definition is_text :: "cell \<Rightarrow> bool" where
  "is_text x = (case x of Some (Text _) \<Rightarrow> True | _ \<Rightarrow> False)"

fun the_number :: "cell \<Rightarrow> int" where
  "the_number (Some (Int64 v)) = sint v"
| "the_number _ = 0"

definition notna :: "'a option list \<Rightarrow> 'a option list" where
  "notna xs = filter (\<lambda>x. x \<noteq> None) xs"

definition series_count :: "cell list \<Rightarrow> nat" where
  "series_count xs = length (notna xs)"

definition nanmean :: "cell list \<Rightarrow> rat option" where
  "nanmean xs =
     (let vs = map the_number (notna xs)
      in if vs = [] then None
         else Some (float64 (float64 (of_int (sum_list vs)) / float64 (of_nat (length vs)))))"

definition series_mean :: "cell list \<Rightarrow> error + rat option" where
  "series_mean xs = (if list_ex is_text xs then Inl TypeError else Inr (nanmean xs))"

section \<open>The transform stage\<close>

text \<open>
  \<^verbatim>\<open>df.groupby(col)\<close> raises \<^verbatim>\<open>KeyError\<close> when the frame has no such column. It
  runs with the defaults of pandas: the rows whose key is NaN are dropped
  (\<^verbatim>\<open>dropna=True\<close>) and the groups come in ascending order of their key
  (\<^verbatim>\<open>sort=True\<close>). \<^verbatim>\<open>agg(["count", "mean"])\<close> reduces the outcome column of each
  group; \<^verbatim>\<open>reset_index\<close>, \<^verbatim>\<open>rename\<close> and \<^verbatim>\<open>to_dict(orient="records")\<close> turn
  the result into one record per group, in the same order.
\<close>

record group_record =
  category :: val
  respondent_count :: nat
  support_rate :: "rat option"

definition group_keys :: "column \<Rightarrow> row list \<Rightarrow> val list" where
  "group_keys c rs = sort (remdups (map the (notna (map (col_value c) rs))))"

definition group_rows :: "column \<Rightarrow> val \<Rightarrow> row list \<Rightarrow> row list" where
  "group_rows c k rs = filter (\<lambda>r. col_value c r = Some k) rs"

definition groupby_agg :: "column \<Rightarrow> row list \<Rightarrow> group_record list" where
  "groupby_agg c rs =
     map (\<lambda>k. let ys = map policy_support (group_rows c k rs)
              in \<lparr>category = k, respondent_count = series_count ys,
                  support_rate = nanmean ys\<rparr>)
         (group_keys c rs)"

text \<open>
  The summary is a Python dictionary from names to values of two shapes; it is
  an association list in insertion order, and \<^verbatim>\<open>summary[k] = v\<close> is
  \<^const>\<open>AList.update\<close>. An exception leaves the loop and the function: the
  entries made so far are lost.
\<close>

datatype sval = Rate "rat option" | Records "group_record list"

type_synonym summary = "(string \<times> sval) list"

fun summarise :: "frame \<Rightarrow> column list \<Rightarrow> summary \<Rightarrow> error + summary" where
  "summarise df [] summary = Inr summary"
| "summarise df (c # cs) summary =
     (if col_name c \<notin> set (columns df) then Inl (KeyError (col_name c))
      else summarise df cs
             (AList.update (col_name c) (Records (groupby_agg c (rows df))) summary))"

definition transform_data :: "frame \<Rightarrow> error + summary" where
  "transform_data df =
     (if ''policy_support'' \<notin> set (columns df) then Inl (KeyError ''policy_support'')
      else case series_mean (map policy_support (rows df)) of
             Inl e \<Rightarrow> Inl e
           | Inr m \<Rightarrow>
               summarise df demographic_cols
                 (AList.update ''overall_support_rate'' (Rate m) []))"

text \<open>
  The frames on which the transform stage raises nothing: all six columns are
  there, and the outcome column holds no text.
\<close>

definition has_columns :: "frame \<Rightarrow> bool" where
  "has_columns df = (set (''policy_support'' # map col_name demographic_cols) \<subseteq> set (columns df))"

definition numeric_outcome :: "frame \<Rightarrow> bool" where
  "numeric_outcome df = (\<not> list_ex is_text (map policy_support (rows df)))"

text \<open>The arithmetic mean of a list of numbers, as the specification words it, and
  the outcome values of a list of rows.\<close>

definition arithmetic_mean :: "int list \<Rightarrow> rat" where
  "arithmetic_mean ys = of_int (sum_list ys) / of_nat (length ys)"

definition outcomes :: "row list \<Rightarrow> int list" where
  "outcomes rs = map (the_number \<circ> policy_support) rs"

section \<open>Clock readings and file names\<close>

text \<open>
  \<^verbatim>\<open>datetime.now()\<close> is a reading of the system clock, with microseconds. The load
  stage formats one reading with \<^verbatim>\<open>strftime("%Y-%m-%d_%H-%M-%S")\<close> for the file
  name and a second one with \<^verbatim>\<open>isoformat()\<close> for the report. Both readings are
  arguments of the model. \<open>valid_datetime\<close> holds of the readings of a clock
  that shows a year from 1000 to 9999, where \<^verbatim>\<open>%Y\<close> prints four digits on every
  platform.
\<close>

record datetime =
  year :: nat
  month :: nat
  day :: nat
  hour :: nat
  minute :: nat
  second :: nat
  microsecond :: nat

definition valid_datetime :: "datetime \<Rightarrow> bool" where
  "valid_datetime t =
     (1000 \<le> year t \<and> year t \<le> 9999 \<and> 1 \<le> month t \<and> month t \<le> 12 \<and>
      1 \<le> day t \<and> day t \<le> 31 \<and> hour t < 24 \<and> minute t < 60 \<and> second t < 60 \<and>
      microsecond t < 1000000)"

definition digit :: "nat \<Rightarrow> char" where
  "digit n = ''0123456789'' ! (n mod 10)"

fun dec :: "nat \<Rightarrow> string" where
  "dec n = (if n < 10 then [digit n] else dec (n div 10) @ [digit n])"

declare dec.simps [simp del]

text \<open>\<open>zfill w n\<close> is the decimal numeral of \<open>n\<close>, filled with zeros to \<open>w\<close> digits.\<close>

definition zfill :: "nat \<Rightarrow> nat \<Rightarrow> string" where
  "zfill w n = replicate (w - length (dec n)) CHR ''0'' @ dec n"

definition strftime :: "datetime \<Rightarrow> string" where
  "strftime t =
     zfill 4 (year t) @ ''-'' @ zfill 2 (month t) @ ''-'' @ zfill 2 (day t) @ ''_'' @
     zfill 2 (hour t) @ ''-'' @ zfill 2 (minute t) @ ''-'' @ zfill 2 (second t)"

definition isoformat :: "datetime \<Rightarrow> string" where
  "isoformat t =
     zfill 4 (year t) @ ''-'' @ zfill 2 (month t) @ ''-'' @ zfill 2 (day t) @ ''T'' @
     zfill 2 (hour t) @ '':'' @ zfill 2 (minute t) @ '':'' @ zfill 2 (second t) @
     (if microsecond t = 0 then [] else ''.'' @ zfill 6 (microsecond t))"

definition report_name :: "datetime \<Rightarrow> string" where
  "report_name ts = ''report_'' @ strftime ts @ ''.txt''"

definition same_second :: "datetime \<Rightarrow> datetime \<Rightarrow> bool" where
  "same_second ta tb =
     (year ta = year tb \<and> month ta = month tb \<and> day ta = day tb \<and>
      hour ta = hour tb \<and> minute ta = minute tb \<and> second ta = second tb)"

section \<open>The text of the report\<close>

text \<open>
  The fields \<^verbatim>\<open>{value:20}\<close>, \<^verbatim>\<open>{count:4d}\<close> and \<^verbatim>\<open>{rate:.3f}\<close> of the report
  lines are Python's \<^verbatim>\<open>format\<close> of a key, a count and a rate. The model takes
  the three functions as an argument, so that what is proved of the load stage
  holds whatever text they give.
\<close>

record formats =
  fmt_value :: "val \<Rightarrow> string"
  fmt_count :: "nat \<Rightarrow> string"
  fmt_rate :: "rat option \<Rightarrow> string"

text \<open>The report is written in UTF-8, where the dash of the record lines takes
  three bytes.\<close>

definition em_dash :: string where
  "em_dash = [CHR 0xE2, CHR 0x80, CHR 0x94]"

definition render_record :: "formats \<Rightarrow> group_record \<Rightarrow> string" where
  "render_record F g =
     ''  '' @ fmt_value F (category g) @ '' '' @ em_dash @ '' respondents: '' @
     fmt_count F (respondent_count g) @ '', support_rate: '' @ fmt_rate F (support_rate g)"

text \<open>
  The loop over the five column names: \<^verbatim>\<open>summary[col]\<close> raises \<^verbatim>\<open>KeyError\<close> for
  a missing key, and iterating over a number raises \<^verbatim>\<open>TypeError\<close>.
\<close>

fun render_cols :: "formats \<Rightarrow> summary \<Rightarrow> string list \<Rightarrow> error + string list" where
  "render_cols F summary [] = Inr []"
| "render_cols F summary (col # cols) =
     (case map_of summary col of
        None \<Rightarrow> Inl (KeyError col)
      | Some (Rate _) \<Rightarrow> Inl TypeError
      | Some (Records rs) \<Rightarrow>
          (case render_cols F summary cols of
             Inl e \<Rightarrow> Inl e
           | Inr ls \<Rightarrow>
               Inr ([''Support by '' @ col @ '':''] @ map (render_record F) rs @ [''''] @ ls)))"

definition render :: "formats \<Rightarrow> datetime \<Rightarrow> summary \<Rightarrow> error + string list" where
  "render F gen summary =
     (let lines = [''Public Opinion Data Summary Report'', replicate 36 CHR ''='', '''',
                   ''Generated: '' @ isoformat gen, '''']
      in case (case map_of summary ''overall_support_rate'' of
                 None \<Rightarrow> Inr lines
               | Some (Rate r) \<Rightarrow> Inr (lines @ [''Overall support rate: '' @ fmt_rate F r, ''''])
               | Some (Records _) \<Rightarrow> Inl TypeError)
         of Inl e \<Rightarrow> Inl e
          | Inr lines \<Rightarrow>
              (case render_cols F summary
                      [''gender'', ''race'', ''age_group'', ''education'', ''income'']
               of Inl e \<Rightarrow> Inl e | Inr ls \<Rightarrow> Inr (lines @ ls)))"

fun join :: "string \<Rightarrow> string list \<Rightarrow> string" where
  "join sep [] = []"
| "join sep [l] = l"
| "join sep (l # ls) = l @ sep @ join sep ls"

section \<open>The files and the three stages\<close>

text \<open>
  What a run sees and changes outside the program: the entries of
  \<^verbatim>\<open>data/raw\<close>, each with the frame that \<^verbatim>\<open>pd.read_csv\<close> returns for it or the
  exception that it raises; the files of \<^verbatim>\<open>docs\<close> with their contents; whether
  a file of \<^verbatim>\<open>docs\<close> can be opened for writing; the number of bytes the device
  still accepts; and the task runs that Prefect has started, in order. Log
  messages are left out.
\<close>

record world =
  repo_root :: string
  raw_dir :: "(string \<times> (error + frame)) list"
  docs_dir :: "string \<rightharpoonup> string"
  docs_writable :: bool
  disk_free :: nat
  task_runs :: "string list"

definition is_csv :: "string \<Rightarrow> bool" where
  "is_csv name = (4 \<le> length name \<and> drop (length name - 4) name = ''.csv'')"

fun read_frames :: "(string \<times> (error + frame)) list \<Rightarrow> error + frame list" where
  "read_frames [] = Inr []"
| "read_frames ((name, res) # fs) =
     (case res of
        Inl e \<Rightarrow> Inl e
      | Inr f \<Rightarrow> (case read_frames fs of Inl e \<Rightarrow> Inl e | Inr frames \<Rightarrow> Inr (f # frames)))"

text \<open>
  \<^verbatim>\<open>pd.concat\<close> puts the rows of the frames one after the other. The result has
  every column that one of the frames has, and the rows of a frame that lacks a
  column get NaN there.
\<close>

definition blank_missing :: "string list \<Rightarrow> row \<Rightarrow> row" where
  "blank_missing cs r =
     \<lparr>policy_support = (if ''policy_support'' \<in> set cs then policy_support r else None),
      gender = (if ''gender'' \<in> set cs then gender r else None),
      race = (if ''race'' \<in> set cs then race r else None),
      age_group = (if ''age_group'' \<in> set cs then age_group r else None),
      education = (if ''education'' \<in> set cs then education r else None),
      income = (if ''income'' \<in> set cs then income r else None)\<rparr>"

definition concat_frames :: "frame list \<Rightarrow> frame" where
  "concat_frames fs =
     \<lparr>columns = remdups (concat (map columns fs)),
      rows = concat (map (\<lambda>f. map (blank_missing (columns f)) (rows f)) fs)\<rparr>"

definition extract_data :: "world \<Rightarrow> error + frame" where
  "extract_data w =
     (let raw = repo_root w @ ''/data/raw'';
          csv_files = filter (\<lambda>(name, _). is_csv name) (raw_dir w)
      in if csv_files = [] then Inl (FileNotFoundError (''No CSV files found in '' @ raw))
         else case read_frames csv_files of
                Inl e \<Rightarrow> Inl e
              | Inr frames \<Rightarrow> Inr (concat_frames frames))"

text \<open>
  The load stage makes sure that \<^verbatim>\<open>docs\<close> exists (\<^verbatim>\<open>mkdir\<close> with
  \<^verbatim>\<open>exist_ok=True\<close>, which changes no file; the directory is taken to be
  there or to be creatable) and builds all lines. Then \<^verbatim>\<open>open(report_path, "w")\<close> creates
  the file, or empties a file that has this name already, and only then
  \<^verbatim>\<open>f.write\<close> puts the body into it. A write that the device cuts short leaves
  the part written so far and raises \<^verbatim>\<open>OSError\<close>.
\<close>

definition load_data ::
  "formats \<Rightarrow> datetime \<Rightarrow> datetime \<Rightarrow> summary \<Rightarrow> world \<Rightarrow> (error + string) \<times> world" where
  "load_data F ts gen summary w =
     (let name = report_name ts;
          report_path = repo_root w @ ''/docs/'' @ name
      in case render F gen summary of
           Inl e \<Rightarrow> (Inl e, w)
         | Inr lines \<Rightarrow>
             if \<not> docs_writable w then (Inl (OSError ''EACCES''), w)
             else
               (let body = join [CHR 0x0A] lines;
                    w1 = w\<lparr>docs_dir := (docs_dir w)(name \<mapsto> [])\<rparr>
                in if disk_free w < length body
                   then (Inl (OSError ''ENOSPC''),
                         w1\<lparr>docs_dir := (docs_dir w1)(name \<mapsto> take (disk_free w) body)\<rparr>)
                   else (Inr report_path,
                         w1\<lparr>docs_dir := (docs_dir w1)(name \<mapsto> body)\<rparr>)))"

text \<open>Calling a function decorated with \<^verbatim>\<open>@task\<close> starts a task run of its name;
  an exception of the task is raised again in the flow.\<close>

definition task :: "string \<Rightarrow> world \<Rightarrow> world" where
  "task name w = w\<lparr>task_runs := task_runs w @ [name]\<rparr>"

definition pipeline ::
  "formats \<Rightarrow> datetime \<Rightarrow> datetime \<Rightarrow> world \<Rightarrow> (error + string) \<times> world" where
  "pipeline F ts gen w =
     (let w1 = task ''extract_data'' w
      in case extract_data w1 of
           Inl e \<Rightarrow> (Inl e, w1)
         | Inr df \<Rightarrow>
             (let w2 = task ''transform_data'' w1
              in case transform_data df of
                   Inl e \<Rightarrow> (Inl e, w2)
                 | Inr summary \<Rightarrow> load_data F ts gen summary (task ''load_data'' w2)))"

section \<open>Example frames, clock readings and worlds\<close>

text \<open>Survey rows for the concrete runs below: \<open>row_c\<close> has a blank gender cell,
  \<open>row_d\<close> an outcome outside \<open>{0, 1}\<close>, \<open>row_t\<close> a text as its outcome, and the
  rows \<open>row_9\<close>, \<open>row_10\<close>, \<open>row_100\<close> have numbers in the income column.\<close>

definition six_columns :: "string list" where
  "six_columns = [''policy_support'', ''gender'', ''race'', ''age_group'', ''education'', ''income'']"

definition row_a :: row where
  "row_a = \<lparr>policy_support = Some (Int64 1), gender = Some (Text ''M''),
            race = Some (Text ''white''), age_group = Some (Text ''18-29''),
            education = Some (Text ''college''), income = Some (Text ''high'')\<rparr>"

definition row_b :: row where
  "row_b = \<lparr>policy_support = Some (Int64 0), gender = Some (Text ''F''),
            race = Some (Text ''black''), age_group = Some (Text ''30-44''),
            education = Some (Text ''college''), income = Some (Text ''low'')\<rparr>"

definition row_c :: row where
  "row_c = \<lparr>policy_support = Some (Int64 1), gender = None,
            race = Some (Text ''white''), age_group = Some (Text ''18-29''),
            education = Some (Text ''college''), income = Some (Text ''high'')\<rparr>"

definition row_d :: row where
  "row_d = \<lparr>policy_support = Some (Int64 2), gender = Some (Text ''M''),
            race = Some (Text ''white''), age_group = Some (Text ''18-29''),
            education = Some (Text ''college''), income = Some (Text ''high'')\<rparr>"

definition row_t :: row where
  "row_t = \<lparr>policy_support = Some (Text ''yes''), gender = Some (Text ''M''),
            race = Some (Text ''white''), age_group = Some (Text ''18-29''),
            education = Some (Text ''college''), income = Some (Text ''high'')\<rparr>"

definition row_9 :: row where
  "row_9 = \<lparr>policy_support = Some (Int64 1), gender = Some (Text ''M''),
            race = Some (Text ''white''), age_group = Some (Text ''18-29''),
            education = Some (Text ''college''), income = Some (Int64 9)\<rparr>"

definition row_10 :: row where
  "row_10 = \<lparr>policy_support = Some (Int64 0), gender = Some (Text ''F''),
            race = Some (Text ''white''), age_group = Some (Text ''18-29''),
            education = Some (Text ''college''), income = Some (Int64 10)\<rparr>"

definition row_100 :: row where
  "row_100 = \<lparr>policy_support = Some (Int64 1), gender = Some (Text ''F''),
            race = Some (Text ''white''), age_group = Some (Text ''18-29''),
            education = Some (Text ''college''), income = Some (Int64 100)\<rparr>"

definition survey :: "row list \<Rightarrow> frame" where
  "survey rs = \<lparr>columns = six_columns, rows = rs\<rparr>"

text \<open>
  Formats for the example runs. They give what Python gives for a key that is an
  ASCII text or an integer, for a count, and for a rate: the key filled with
  blanks to 20 characters, the count to 4, and three decimals of the rate, a tie
  going to the even digit.
\<close>

definition ljust :: "nat \<Rightarrow> string \<Rightarrow> string" where
  "ljust w s = s @ replicate (w - length s) CHR '' ''"

definition rjust :: "nat \<Rightarrow> string \<Rightarrow> string" where
  "rjust w s = replicate (w - length s) CHR '' '' @ s"

definition dec_int :: "int \<Rightarrow> string" where
  "dec_int z = (if z < 0 then ''-'' @ dec (nat (- z)) else dec (nat z))"

definition fmt3f :: "rat option \<Rightarrow> string" where
  "fmt3f x =
     (case x of
        None \<Rightarrow> ''nan''
      | Some r \<Rightarrow>
          (let m = nat (rhe (\<bar>r\<bar> * 1000))
           in (if r < 0 then ''-'' else []) @ dec (m div 1000) @ ''.'' @ zfill 3 (m mod 1000)))"

definition example_formats :: formats where
  "example_formats =
     \<lparr>fmt_value = (\<lambda>v. case v of Text s \<Rightarrow> ljust 20 s | Int64 n \<Rightarrow> rjust 20 (dec_int (sint n))),
      fmt_count = (\<lambda>n. rjust 4 (dec n)),
      fmt_rate = fmt3f\<rparr>"

text \<open>Clock readings: \<open>t0\<close> and \<open>t0_later\<close> lie in the same second, \<open>t1\<close> in
  the next one.\<close>

definition t0 :: datetime where
  "t0 = \<lparr>year = 2024, month = 1, day = 2, hour = 3, minute = 4, second = 5, microsecond = 6\<rparr>"

definition t0_later :: datetime where
  "t0_later = \<lparr>year = 2024, month = 1, day = 2, hour = 3, minute = 4, second = 5, microsecond = 7\<rparr>"

definition t1 :: datetime where
  "t1 = \<lparr>year = 2024, month = 1, day = 2, hour = 3, minute = 4, second = 6, microsecond = 0\<rparr>"

text \<open>Five worlds: one survey file and room to write; the same with room for 14
  bytes only; a survey file that \<^verbatim>\<open>read_csv\<close> rejects; a survey file whose
  outcome column holds a text; no CSV file at all.\<close>

definition world0 :: world where
  "world0 = \<lparr>repo_root = ''/repo'', raw_dir = [(''survey.csv'', Inr (survey [row_a, row_b]))],
     docs_dir = Map.empty, docs_writable = True, disk_free = 100000, task_runs = []\<rparr>"




definition world_empty :: world where
  "world_empty = \<lparr>repo_root = ''/repo'', raw_dir = [(''notes.txt'', Inl (PandasError ''ParserError''))],
     docs_dir = Map.empty, docs_writable = True, disk_free = 100000, task_runs = []\<rparr>"

section \<open>Facts about float64\<close>

lemma rhe_of_int: "rhe (of_int n) = n"
  by (simp add: rhe_def)



lemma rhe_near:
  assumes "\<bar>x - of_int n\<bar> < 1 / 2"
  shows "rhe x = n"
proof (cases "of_int n \<le> x")
  case True
  have "x < of_int n + 1"
    using assms by linarith
  then have f: "\<lfloor>x\<rfloor> = n"
    using True by (intro floor_unique) auto
  have "x - of_int n < 1 / 2"
    using assms by linarith
  then show ?thesis
    by (simp add: rhe_def Let_def f)
next
  case False
  have "of_int n - 1 \<le> x"
    using assms by linarith
  then have "of_int (n - 1) \<le> x"
    by simp
  moreover have "x < of_int (n - 1) + 1"
    using False by simp
  ultimately have f: "\<lfloor>x\<rfloor> = n - 1"
    by (intro floor_unique) auto
  have "1 / 2 < x - (of_int n - 1)"
    using assms by linarith
  then have "1 / 2 < x - of_int (n - 1)"
    by simp
  then show ?thesis
    by (simp add: rhe_def Let_def f del: of_int_diff)
qed

lemma exponent_bounds:
  assumes "0 < q"
  shows "2 powi (exponent q) \<le> q \<and> q < 2 powi (exponent q + 1)"
proof -
  obtain a b where ab: "quotient_of q = (a, b)"
    by (cases "quotient_of q")
  have b: "0 < b"
    using ab by (rule quotient_of_denom_pos)
  have q: "q = of_int a / of_int b"
    using ab by (rule quotient_of_div)
  have a: "0 < a"
    using assms b q by (simp add: zero_less_divide_iff)
  define la where "la = floorlog 2 (nat a)"
  define lb where "lb = floorlog 2 (nat b)"
  have A: "2 ^ (la - 1) \<le> nat a \<and> nat a < 2 ^ la"
    unfolding la_def using a by (intro floorlog_bounds) auto
  have B: "2 ^ (lb - 1) \<le> nat b \<and> nat b < 2 ^ lb"
    unfolding lb_def using b by (intro floorlog_bounds) auto
  have la: "0 < la"
    using A a by (auto intro: Nat.gr0I)
  have lb: "0 < lb"
    using B b by (auto intro: Nat.gr0I)
  have ra: "(2::rat) ^ (la - 1) \<le> of_int a \<and> (of_int a :: rat) < 2 ^ la"
  proof -
    have "(of_nat (2 ^ (la - 1)) :: rat) \<le> of_nat (nat a) \<and> (of_nat (nat a) :: rat) < of_nat (2 ^ la)"
      using A by (simp only: of_nat_le_iff of_nat_less_iff)
    then show ?thesis
      using a by simp
  qed
  have rb: "(2::rat) ^ (lb - 1) \<le> of_int b \<and> (of_int b :: rat) < 2 ^ lb"
  proof -
    have "(of_nat (2 ^ (lb - 1)) :: rat) \<le> of_nat (nat b) \<and> (of_nat (nat b) :: rat) < of_nat (2 ^ lb)"
      using B by (simp only: of_nat_le_iff of_nat_less_iff)
    then show ?thesis
      using b by simp
  qed
  have p1: "(2::rat) powi (int la - int lb - 1) = 2 ^ (la - 1) / 2 ^ lb"
  proof -
    have "int la - int lb - 1 = int (la - 1) - int lb"
      using la by simp
    moreover have "(2::rat) powi (int (la - 1) - int lb) = 2 powi int (la - 1) / 2 powi int lb"
      by (rule power_int_diff) simp
    ultimately show ?thesis
      by (simp only: power_int_of_nat)
  qed
  have p2: "(2::rat) powi (int la - int lb + 1) = 2 ^ la / 2 ^ (lb - 1)"
  proof -
    have "int la - int lb + 1 = int la - int (lb - 1)"
      using lb by simp
    moreover have "(2::rat) powi (int la - int (lb - 1)) = 2 powi int la / 2 powi int (lb - 1)"
      by (rule power_int_diff) simp
    ultimately show ?thesis
      by (simp only: power_int_of_nat)
  qed
  have lo: "2 powi (int la - int lb - 1) \<le> q"
    unfolding p1 q using ra rb a b by (intro frac_le) auto
  have hi: "q < 2 powi (int la - int lb + 1)"
    unfolding p2 q using ra rb a b by (intro frac_less) auto
  have e: "exponent q = (if 2 powi (int la - int lb) \<le> q then int la - int lb else int la - int lb - 1)"
    by (simp add: exponent_def ab la_def lb_def)
  show ?thesis
  proof (cases "2 powi (int la - int lb) \<le> q")
    case True
    then show ?thesis
      using hi e by simp
  next
    case False
    then show ?thesis
      using lo e by simp
  qed
qed

lemma exponent_unique:
  assumes "2 powi e \<le> q" and "q < 2 powi (e + 1)"
  shows "exponent q = e"
proof -
  have q: "0 < q"
    using assms(1) by (rule less_le_trans [rotated]) simp
  have b: "2 powi (exponent q) \<le> q" "q < 2 powi (exponent q + 1)"
    using exponent_bounds [OF q] by simp_all
  have "(2::rat) powi e < 2 powi (exponent q + 1)"
    using assms(1) b(2) by simp
  then have 1: "e < exponent q + 1"
    using power_int_increasing [of "exponent q + 1" e "2::rat"] by (cases "e < exponent q + 1") auto
  have "(2::rat) powi (exponent q) < 2 powi (e + 1)"
    using assms(2) b(1) by simp
  then have 2: "exponent q < e + 1"
    using power_int_increasing [of "e + 1" "exponent q" "2::rat"] by (cases "exponent q < e + 1") auto
  show ?thesis
    using 1 2 by simp
qed

lemma float64_pos:
  assumes "0 < q"
  shows "float64 q = of_int (rhe (q / 2 powi (max (exponent q) (- 1022) - 52)))
           * 2 powi (max (exponent q) (- 1022) - 52)"
  using assms by (simp add: float64_def Let_def)

lemma float64_minus: "float64 (- q) = - float64 q"
  by (simp add: float64_def Let_def)


lemma float64_eval:
  assumes "2 powi e \<le> q" and "q < 2 powi (e + 1)" and "- 1022 \<le> e"
    and "\<bar>q / 2 powi (e - 52) - of_int n\<bar> < 1 / 2"
  shows "float64 q = of_int n * 2 powi (e - 52)"
proof -
  have q: "0 < q"
    using assms(1) by (rule less_le_trans [rotated]) simp
  have e: "max (exponent q) (- 1022) = e"
    using exponent_unique [OF assms(1,2)] assms(3) by simp
  show ?thesis
    by (simp add: float64_pos [OF q] e rhe_near [OF assms(4)])
qed

lemma float64_exact:
  assumes "0 < q" and "q / 2 powi (max (exponent q) (- 1022) - 52) = of_int m"
  shows "float64 q = q"
proof -
  have "float64 q = of_int m * 2 powi (max (exponent q) (- 1022) - 52)"
    by (simp add: float64_pos [OF assms(1)] assms(2) rhe_of_int)
  also have "\<dots> = q"
    using assms(2) by (simp add: field_simps)
  finally show ?thesis .
qed

lemma float64_of_int_pos:
  assumes "0 < z" and "z \<le> 2 ^ 53"
  shows "float64 (of_int z) = of_int z"
proof -
  let ?q = "of_int z :: rat"
  have q: "0 < ?q"
    using assms(1) by simp
  define e where "e = exponent ?q"
  have b: "2 powi e \<le> ?q" "?q < 2 powi (e + 1)"
    using exponent_bounds [OF q] by (simp_all add: e_def)
  have "(2::rat) powi 0 < 2 powi (e + 1)"
    using b(2) assms(1) by (simp add: less_le_trans [rotated])
  then have e0: "0 \<le> e"
    using power_int_increasing [of "e + 1" 0 "2::rat"] by (cases "0 \<le> e") auto
  have "?q \<le> 2 powi 53"
  proof -
    have "?q \<le> of_int (2 ^ 53)"
      using assms(2) by (simp only: of_int_le_iff)
    then show ?thesis by simp
  qed
  then have "(2::rat) powi e \<le> 2 powi 53"
    using b(1) by simp
  then have e53: "e \<le> 53"
    using power_int_strict_increasing [of 53 e "2::rat"] by (cases "e \<le> 53") auto
  have m: "max e (- 1022) = e"
    using e0 by simp
  show ?thesis
  proof (cases "e \<le> 52")
    case True
    define k where "k = nat (52 - e)"
    have k: "e - 52 = - int k"
      using True by (simp add: k_def)
    have "?q / 2 powi (e - 52) = of_int (z * 2 ^ k)"
      by (simp add: k power_int_minus field_simps)
    then show ?thesis
      using float64_exact [OF q, of "z * 2 ^ k"] by (simp add: m flip: e_def)
  next
    case False
    then have e: "e = 53"
      using e53 by simp
    have "(of_int (2 ^ 53) :: rat) \<le> of_int z"
      using b(1) by (simp add: e)
    then have "2 ^ 53 \<le> z"
      by (simp only: of_int_le_iff)
    then have z: "z = 2 ^ 53"
      using assms(2) by simp
    have "?q / 2 powi (e - 52) = of_int (2 ^ 52)"
      by (simp add: e z)
    then show ?thesis
      using float64_exact [OF q, of "2 ^ 52"] by (simp add: m flip: e_def)
  qed
qed

lemma float64_of_int:
  assumes "\<bar>z\<bar> \<le> 2 ^ 53"
  shows "float64 (of_int z) = of_int z"
proof -
  consider "z = 0" | "0 < z" | "z < 0"
    by linarith
  then show ?thesis
  proof cases
    case 1
    then show ?thesis by (simp add: float64_def)
  next
    case 2
    then show ?thesis
      using assms by (intro float64_of_int_pos) auto
  next
    case 3
    then have "float64 (of_int (- z)) = of_int (- z)"
      using assms by (intro float64_of_int_pos) auto
    then show ?thesis
      by (simp add: float64_minus)
  qed
qed

lemma float64_of_nat: "n \<le> 2 ^ 53 \<Longrightarrow> float64 (of_nat n) = of_nat n"
  using float64_of_int [of "int n"] by simp


lemma float64_half: "float64 (1 / 2) = 1 / 2"
  using float64_eval [of "- 1" "1 / 2" "2 ^ 52"] by (simp add: power_int_minus)

lemma float64_two_thirds: "float64 (2 / 3) = 6004799503160661 / 9007199254740992"
  using float64_eval [of "- 1" "2 / 3" 6004799503160661] by (simp add: power_int_minus)

lemma float64_small:
  "float64 0 = 0" "float64 1 = 1" "float64 2 = 2" "float64 3 = 3"
  using float64_of_int [of 0] float64_of_int [of 1] float64_of_int [of 2] float64_of_int [of 3]
  by simp_all

section \<open>The shape of the summary\<close>

lemma transform_data_ok:
  assumes "has_columns df" and "numeric_outcome df"
  shows "transform_data df =
     Inr [(''overall_support_rate'', Rate (nanmean (map policy_support (rows df)))),
          (''gender'', Records (groupby_agg Gender (rows df))),
          (''race'', Records (groupby_agg Race (rows df))),
          (''age_group'', Records (groupby_agg Age_group (rows df))),
          (''education'', Records (groupby_agg Education (rows df))),
          (''income'', Records (groupby_agg Income (rows df)))]"
  using assms
  by (simp add: transform_data_def series_mean_def has_columns_def numeric_outcome_def
      demographic_cols_def)

lemma transform_data_text:
  assumes "''policy_support'' \<in> set (columns df)"
    and "list_ex is_text (map policy_support (rows df))"
  shows "transform_data df = Inl TypeError"
  using assms by (simp add: transform_data_def series_mean_def)

lemma transform_data_Inr:
  assumes "transform_data df = Inr s"
  shows "has_columns df \<and> numeric_outcome df"
  using assms
  by (simp add: transform_data_def series_mean_def has_columns_def numeric_outcome_def
      demographic_cols_def split: if_splits)

lemma lookup_overall:
  "has_columns df \<Longrightarrow> numeric_outcome df \<Longrightarrow> transform_data df = Inr s \<Longrightarrow>
   map_of s ''overall_support_rate'' = Some (Rate (nanmean (map policy_support (rows df))))"
  by (auto simp: transform_data_ok)

lemma lookup_col:
  "has_columns df \<Longrightarrow> numeric_outcome df \<Longrightarrow> transform_data df = Inr s \<Longrightarrow>
   map_of s (col_name c) = Some (Records (groupby_agg c (rows df)))"
  by (cases c) (auto simp: transform_data_ok)

section \<open>Facts about the reductions and the grouping\<close>


lemma set_the_notna: "set (map the (notna xs)) = {k. Some k \<in> set xs}"
  by (force simp: notna_def image_iff)

lemma notna_id:
  assumes "None \<notin> set xs"
  shows "notna xs = xs"
proof -
  have "\<forall>x\<in>set xs. x \<noteq> None"
    using assms by metis
  then show ?thesis
    unfolding notna_def by (rule filter_True)
qed








lemma group_keys_set: "set (group_keys c rs) = {k. Some k \<in> col_value c ` set rs}"
  unfolding group_keys_def set_sort set_remdups set_the_notna by simp

lemma group_keys_distinct: "distinct (group_keys c rs)"
  by (simp add: group_keys_def)

lemma group_keys_sorted: "sorted (group_keys c rs)"
  by (simp add: group_keys_def)

lemma keys_observed: "Some ` set (group_keys c rs) = set (map (col_value c) rs) - {None}"
  unfolding group_keys_set by force

lemma count_partition:
  assumes "finite K"
  shows "(\<Sum>k\<in>K. length (filter (\<lambda>r. g r = Some k \<and> Q r) rs))
         = length (filter (\<lambda>r. (\<exists>k\<in>K. g r = Some k) \<and> Q r) rs)"
proof (induction rs)
  case Nil
  then show ?case by simp
next
  case (Cons r rs)
  have one: "(\<Sum>k\<in>K. if g r = Some k \<and> Q r then 1 else 0)
             = (if (\<exists>k\<in>K. g r = Some k) \<and> Q r then 1 else (0::nat))"
  proof (cases "g r")
    case None
    then show ?thesis by simp
  next
    case (Some a)
    have "(\<Sum>k\<in>K. if Some a = Some k \<and> Q r then 1 else 0)
          = (\<Sum>k\<in>K. if k = a then (if Q r then 1 else 0) else (0::nat))"
      by (rule sum.cong) auto
    also have "\<dots> = (if a \<in> K then (if Q r then 1 else 0) else 0)"
      using assms by (simp add: sum.delta)
    finally show ?thesis using Some by auto
  qed
  have "(\<Sum>k\<in>K. length (filter (\<lambda>r. g r = Some k \<and> Q r) (r # rs)))
        = (\<Sum>k\<in>K. (if g r = Some k \<and> Q r then 1 else 0)
                    + length (filter (\<lambda>r. g r = Some k \<and> Q r) rs))"
    by (rule sum.cong) auto
  also have "\<dots> = (\<Sum>k\<in>K. if g r = Some k \<and> Q r then 1 else 0)
                  + (\<Sum>k\<in>K. length (filter (\<lambda>r. g r = Some k \<and> Q r) rs))"
    by (simp add: sum.distrib)
  finally show ?case
    using one Cons.IH by simp
qed

lemma respondent_count_group:
  "series_count (map policy_support (group_rows c k rs))
   = length (filter (\<lambda>r. col_value c r = Some k \<and> policy_support r \<noteq> None) rs)"
  by (simp add: series_count_def notna_def group_rows_def filter_map comp_def conj_commute)

lemma key_present:
  assumes "r \<in> set rs"
  shows "(\<exists>k\<in>set (group_keys c rs). col_value c r = Some k) = (col_value c r \<noteq> None)"
proof (cases "col_value c r")
  case None
  then show ?thesis by simp
next
  case (Some a)
  then have "Some a \<in> col_value c ` set rs"
    using assms by (metis imageI)
  then show ?thesis
    using Some by (simp add: group_keys_set)
qed

lemma sum_respondent_count:
  "sum_list (map respondent_count (groupby_agg c rs))
   = length (filter (\<lambda>r. col_value c r \<noteq> None \<and> policy_support r \<noteq> None) rs)"
proof -
  let ?K = "set (group_keys c rs)"
  have "sum_list (map respondent_count (groupby_agg c rs))
        = sum_list (map (\<lambda>k. length (filter (\<lambda>r. col_value c r = Some k \<and> policy_support r \<noteq> None) rs))
                        (group_keys c rs))"
    by (simp add: groupby_agg_def Let_def comp_def respondent_count_group)
  also have "\<dots> = (\<Sum>k\<in>?K. length (filter (\<lambda>r. col_value c r = Some k \<and> policy_support r \<noteq> None) rs))"
    by (simp add: sum_list_distinct_conv_sum_set group_keys_distinct)
  also have "\<dots> = length (filter (\<lambda>r. (\<exists>k\<in>?K. col_value c r = Some k) \<and> policy_support r \<noteq> None) rs)"
    by (rule count_partition) simp
  also have "\<dots> = length (filter (\<lambda>r. col_value c r \<noteq> None \<and> policy_support r \<noteq> None) rs)"
    by (rule arg_cong [where f = length], rule filter_cong [OF refl]) (metis key_present)
  finally show ?thesis .
qed

lemma nanmean_present:
  assumes "xs \<noteq> []" and "None \<notin> set xs"
    and "\<bar>sum_list (map the_number xs)\<bar> \<le> 2 ^ 53" and "length xs \<le> 2 ^ 53"
  shows "nanmean xs = Some (float64 (arithmetic_mean (map the_number xs)))"
  using assms(1)
  by (simp add: nanmean_def notna_id [OF assms(2)] arithmetic_mean_def
      float64_of_int [OF assms(3)] float64_of_nat [OF assms(4)])






lemma groupby_agg_member:
  "g \<in> set (groupby_agg c rs) \<Longrightarrow>
   category g \<in> set (group_keys c rs) \<and>
   respondent_count g = series_count (map policy_support (group_rows c (category g) rs)) \<and>
   support_rate g = nanmean (map policy_support (group_rows c (category g) rs))"
  by (auto simp: groupby_agg_def Let_def)

lemma categories: "map category (groupby_agg c rs) = group_keys c rs"
  by (simp add: groupby_agg_def Let_def comp_def)

text \<open>The equations that evaluate the transform stage on a concrete frame.\<close>

lemmas eval_defs = transform_data_def series_mean_def demographic_cols_def is_text_def
  groupby_agg_def group_keys_def group_rows_def notna_def series_count_def nanmean_def
  survey_def six_columns_def float64_small float64_half float64_two_thirds

section \<open>Decimal numerals and file names\<close>

lemma dec_small: "n < 10 \<Longrightarrow> dec n = [digit n]"
  by (subst dec.simps) simp

lemma dec_large: "10 \<le> n \<Longrightarrow> dec n = dec (n div 10) @ [digit n]"
  by (subst dec.simps) simp

lemma digit_zero: "digit 0 = CHR ''0''"
  by (simp add: digit_def)

lemma digit_eq_iff: "(digit a = digit b) = (a mod 10 = b mod 10)"
proof -
  have d: "distinct ''0123456789''"
    by simp
  have "a mod 10 < length ''0123456789''" and "b mod 10 < length ''0123456789''"
    by simp_all
  then show ?thesis
    unfolding digit_def using d nth_eq_iff_index_eq by blast
qed

lemma replicate_2_3: "replicate 2 x = [x, x]" "replicate 3 x = [x, x, x]"
  by (simp_all add: numeral_2_eq_2 numeral_3_eq_3)

lemma zfill2: "n < 100 \<Longrightarrow> zfill 2 n = [digit (n div 10), digit n]"
proof (cases "n < 10")
  case True
  then show ?thesis
    by (simp add: zfill_def dec_small digit_zero)
next
  case False
  assume "n < 100"
  then have "n div 10 < 10" by simp
  then show ?thesis
    using False by (simp add: zfill_def dec_large dec_small)
qed

lemma dec3: "n < 1000 \<Longrightarrow> 100 \<le> n \<Longrightarrow> dec n = [digit (n div 100), digit (n div 10), digit n]"
proof -
  assume a: "n < 1000" "100 \<le> n"
  then have "n div 10 < 100" "10 \<le> n div 10" "n div 10 div 10 < 10" by simp_all
  then show ?thesis
    using a by (simp add: dec_large dec_small div_mult2_eq [symmetric])
qed

lemma zfill4: "n < 10000 \<Longrightarrow>
  zfill 4 n = [digit (n div 1000), digit (n div 100), digit (n div 10), digit n]"
proof -
  assume n: "n < 10000"
  consider "n < 10" | "10 \<le> n" "n < 100" | "100 \<le> n" "n < 1000" | "1000 \<le> n"
    by linarith
  then show ?thesis
  proof cases
    case 1
    then show ?thesis by (simp add: zfill_def dec_small digit_zero replicate_2_3)
  next
    case 2
    then have "n div 10 < 10" by simp
    then show ?thesis
      using 2 by (simp add: zfill_def dec_large dec_small digit_zero replicate_2_3)
  next
    case 3
    then show ?thesis
      by (simp add: zfill_def dec3 digit_zero)
  next
    case 4
    then have "n div 10 < 1000" "100 \<le> n div 10"
      using n by simp_all
    then have "dec (n div 10) = [digit (n div 10 div 100), digit (n div 10 div 10), digit (n div 10)]"
      by (rule dec3)
    then show ?thesis
      using 4 by (simp add: zfill_def dec_large div_mult2_eq [symmetric])
  qed
qed

lemma decimal2: "(n::nat) = n div 10 * 10 + n mod 10"
  by simp

lemma decimal4:
  "(n::nat) = n div 1000 * 1000 + n div 100 mod 10 * 100 + n div 10 mod 10 * 10 + n mod 10"
proof -
  have a: "n = n div 10 * 10 + n mod 10"
    by simp
  have b: "n div 10 = n div 100 * 10 + n div 10 mod 10"
    using div_mult_mod_eq [of "n div 10" 10] by (simp add: div_mult2_eq [symmetric])
  have c: "n div 100 = n div 1000 * 10 + n div 100 mod 10"
    using div_mult_mod_eq [of "n div 100" 10] by (simp add: div_mult2_eq [symmetric])
  show ?thesis
    using a b c by linarith
qed

lemma zfill2_inj:
  assumes "a < 100" and "b < 100"
  shows "(zfill 2 a = zfill 2 b) = (a = b)"
proof
  assume "zfill 2 a = zfill 2 b"
  then have d: "a div 10 mod 10 = b div 10 mod 10" "a mod 10 = b mod 10"
    by (simp_all add: zfill2 assms digit_eq_iff)
  have "a div 10 < 10" "b div 10 < 10"
    using assms by simp_all
  then have "a div 10 = b div 10"
    using d(1) by simp
  then show "a = b"
    using d(2) decimal2 [of a] decimal2 [of b] by simp
next
  assume "a = b"
  then show "zfill 2 a = zfill 2 b" by simp
qed

lemma zfill4_inj:
  assumes "a < 10000" and "b < 10000"
  shows "(zfill 4 a = zfill 4 b) = (a = b)"
proof
  assume "zfill 4 a = zfill 4 b"
  then have d: "a div 1000 mod 10 = b div 1000 mod 10" "a div 100 mod 10 = b div 100 mod 10"
    "a div 10 mod 10 = b div 10 mod 10" "a mod 10 = b mod 10"
    by (simp_all add: zfill4 assms digit_eq_iff)
  have "a div 1000 < 10" "b div 1000 < 10"
    using assms by simp_all
  then have "a div 1000 = b div 1000"
    using d(1) by simp
  then show "a = b"
    using d(2,3,4) decimal4 [of a] decimal4 [of b] by simp
next
  assume "a = b"
  then show "zfill 4 a = zfill 4 b" by simp
qed

lemma strftime_eq_iff:
  assumes "valid_datetime ta" and "valid_datetime tb"
  shows "(strftime ta = strftime tb) =
         (year ta = year tb \<and> month ta = month tb \<and> day ta = day tb \<and>
          hour ta = hour tb \<and> minute ta = minute tb \<and> second ta = second tb)"
proof -
  have b1: "year ta < 10000" "month ta < 100" "day ta < 100" "hour ta < 100" "minute ta < 100"
    "second ta < 100"
    using assms(1) by (simp_all add: valid_datetime_def)
  have b2: "year tb < 10000" "month tb < 100" "day tb < 100" "hour tb < 100" "minute tb < 100"
    "second tb < 100"
    using assms(2) by (simp_all add: valid_datetime_def)
  have "(strftime ta = strftime tb) =
        (zfill 4 (year ta) = zfill 4 (year tb) \<and> zfill 2 (month ta) = zfill 2 (month tb) \<and>
         zfill 2 (day ta) = zfill 2 (day tb) \<and> zfill 2 (hour ta) = zfill 2 (hour tb) \<and>
         zfill 2 (minute ta) = zfill 2 (minute tb) \<and> zfill 2 (second ta) = zfill 2 (second tb))"
    unfolding strftime_def
    by (simp add: zfill4 zfill2 b1 b2)
  then show ?thesis
    by (simp add: zfill4_inj zfill2_inj b1 b2)
qed

lemma report_name_eq_iff: "(report_name ta = report_name tb) = (strftime ta = strftime tb)"
  by (simp add: report_name_def)

section \<open>The transform stage: the claims\<close>

text \<open>
  One record with a blank gender cell: no gender triple is returned, so the gender
  counts add up to 0, not to the 1 record of the dataset.
\<close>

theorem missing_category_dropped_counterexample:
  "transform_data (survey [row_c]) =
     Inr [(''overall_support_rate'', Rate (Some 1)),
          (''gender'', Records []),
          (''race'', Records [\<lparr>category = Text ''white'', respondent_count = 1, support_rate = Some 1\<rparr>]),
          (''age_group'', Records [\<lparr>category = Text ''18-29'', respondent_count = 1, support_rate = Some 1\<rparr>]),
          (''education'', Records [\<lparr>category = Text ''college'', respondent_count = 1, support_rate = Some 1\<rparr>]),
          (''income'', Records [\<lparr>category = Text ''high'', respondent_count = 1, support_rate = Some 1\<rparr>])]
   \<and> sum_list (map respondent_count (groupby_agg Gender (rows (survey [row_c]))))
       \<noteq> length (rows (survey [row_c]))"
  by (simp add: eval_defs row_c_def)

text \<open>
  Claim C1, as the code has it. For every dataset on which the transform stage
  raises nothing and each demographic attribute, the returned triples carry
  pairwise distinct category values, which are exactly the values observed in
  present cells of that attribute: a record whose cell is missing belongs to no
  triple. The respondent count of a triple is the number of records with exactly
  that value whose outcome is present, and the counts of an attribute add up to
  the number of records whose attribute value and outcome are both present (all
  \<open>N\<close> records when nothing is missing).
\<close>

theorem respondent_counts_cover_present_records:
  assumes "has_columns df" and "numeric_outcome df"
  shows "\<exists>s. transform_data df = Inr s \<and>
     (\<exists>rs. map_of s (col_name c) = Some (Records rs) \<and>
        distinct (map category rs) \<and>
        Some ` set (map category rs) = set (map (col_value c) (rows df)) - {None} \<and>
        (\<forall>g\<in>set rs. respondent_count g =
           length (filter (\<lambda>r. col_value c r = Some (category g) \<and> policy_support r \<noteq> None)
                     (rows df))) \<and>
        sum_list (map respondent_count rs) =
          length (filter (\<lambda>r. col_value c r \<noteq> None \<and> policy_support r \<noteq> None) (rows df)))"
proof -
  obtain s where s: "transform_data df = Inr s"
    by (simp add: transform_data_ok [OF assms])
  let ?rs = "groupby_agg c (rows df)"
  have d: "distinct (map category ?rs)"
    by (simp add: categories group_keys_distinct)
  have k: "Some ` set (map category ?rs) = set (map (col_value c) (rows df)) - {None}"
    unfolding categories by (rule keys_observed)
  have n: "\<forall>g\<in>set ?rs. respondent_count g =
           length (filter (\<lambda>r. col_value c r = Some (category g) \<and> policy_support r \<noteq> None)
                     (rows df))"
    using groupby_agg_member respondent_count_group by metis
  show ?thesis
    using s lookup_col [OF assms s] d k n sum_respondent_count by blast
qed

text \<open>Three records, one of them with a blank gender cell.\<close>

theorem respondent_counts_cover_present_records_witness:
  "has_columns (survey [row_a, row_c, row_b]) \<and> numeric_outcome (survey [row_a, row_c, row_b]) \<and>
   (\<exists>s. transform_data (survey [row_a, row_c, row_b]) = Inr s \<and>
     (\<exists>rs. map_of s ''gender'' = Some (Records rs) \<and>
        map category rs = [Text ''F'', Text ''M''] \<and> map respondent_count rs = [1, 1] \<and>
        (\<forall>g\<in>set rs. respondent_count g =
           length (filter (\<lambda>r. gender r = Some (category g) \<and> policy_support r \<noteq> None)
                     [row_a, row_c, row_b]))))"
proof -
  have h: "has_columns (survey [row_a, row_c, row_b])"
    "numeric_outcome (survey [row_a, row_c, row_b])"
    by (simp_all add: has_columns_def numeric_outcome_def demographic_cols_def is_text_def
        survey_def six_columns_def row_a_def row_b_def row_c_def)
  show ?thesis
    using h respondent_counts_cover_present_records [OF h, of Gender]
    by (simp add: eval_defs row_a_def row_b_def row_c_def)
qed




text \<open>
  On the dataset of zero records the transform stage raises nothing: it returns
  a summary with a NaN overall rate and five empty breakdowns.
\<close>

theorem empty_dataset_counterexample:
  "transform_data (survey []) =
     Inr [(''overall_support_rate'', Rate None), (''gender'', Records []), (''race'', Records []),
          (''age_group'', Records []), (''education'', Records []), (''income'', Records [])]"
  by (simp add: eval_defs)

text \<open>
  Claim C3, as the code has it. The transform stage returns a summary for every
  dataset that has the six columns and no text in the outcome column; on such a
  dataset of zero records the overall support rate is NaN and each of the five
  breakdowns is the empty list.
\<close>

theorem empty_dataset_summary:
  assumes "has_columns df" and "numeric_outcome df"
  shows "\<exists>s. transform_data df = Inr s \<and>
     (rows df = [] \<longrightarrow> map_of s ''overall_support_rate'' = Some (Rate None) \<and>
                  (\<forall>c. map_of s (col_name c) = Some (Records [])))"
proof -
  obtain s where s: "transform_data df = Inr s"
    by (simp add: transform_data_ok [OF assms])
  have "nanmean (map policy_support []) = None"
    by (simp add: nanmean_def notna_def)
  moreover have "groupby_agg c [] = []" for c
    by (simp add: groupby_agg_def group_keys_def notna_def)
  ultimately show ?thesis
    using s lookup_overall [OF assms s] lookup_col [OF assms s] by auto
qed

text \<open>The dataset of zero records itself.\<close>

theorem empty_dataset_summary_witness:
  "has_columns (survey []) \<and> numeric_outcome (survey []) \<and> rows (survey []) = [] \<and>
   (\<exists>s. transform_data (survey []) = Inr s \<and>
      map_of s ''overall_support_rate'' = Some (Rate None) \<and>
      (\<forall>c. map_of s (col_name c) = Some (Records [])))"
proof -
  have h: "has_columns (survey [])" "numeric_outcome (survey [])"
    by (simp_all add: has_columns_def numeric_outcome_def demographic_cols_def survey_def
        six_columns_def)
  have r: "rows (survey []) = []"
    by (simp add: survey_def)
  show ?thesis
    using h r empty_dataset_summary [OF h] by simp
qed



text \<open>
  Claim C5. For the two records with outcomes 1, 0 and genders M, F, whatever
  their other four cells hold, the overall support rate is one half and the
  gender breakdown holds exactly the two triples (M, 1, 1.0) and (F, 1, 0.0).
\<close>

theorem two_record_scenario:
  assumes "has_columns \<lparr>columns = cs, rows = []\<rparr>"
  shows "\<exists>s. transform_data
          \<lparr>columns = cs,
           rows = [\<lparr>policy_support = Some (Int64 1), gender = Some (Text ''M''), race = a1,
                    age_group = b1, education = c1, income = d1\<rparr>,
                   \<lparr>policy_support = Some (Int64 0), gender = Some (Text ''F''), race = a2,
                    age_group = b2, education = c2, income = d2\<rparr>]\<rparr> = Inr s \<and>
      map_of s ''overall_support_rate'' = Some (Rate (Some (1 / 2))) \<and>
      (\<exists>rs. map_of s ''gender'' = Some (Records rs) \<and> length rs = 2 \<and>
         set rs = {\<lparr>category = Text ''M'', respondent_count = 1, support_rate = Some 1\<rparr>,
                   \<lparr>category = Text ''F'', respondent_count = 1, support_rate = Some 0\<rparr>})"
  using assms
  by (simp add: has_columns_def eval_defs insert_commute)

text \<open>The scenario with the six columns and all other cells blank.\<close>

theorem two_record_scenario_witness:
  "has_columns \<lparr>columns = six_columns, rows = []\<rparr> \<and>
   (\<exists>s. transform_data
          \<lparr>columns = six_columns,
           rows = [\<lparr>policy_support = Some (Int64 1), gender = Some (Text ''M''), race = None,
                    age_group = None, education = None, income = None\<rparr>,
                   \<lparr>policy_support = Some (Int64 0), gender = Some (Text ''F''), race = None,
                    age_group = None, education = None, income = None\<rparr>]\<rparr> = Inr s \<and>
      map_of s ''overall_support_rate'' = Some (Rate (Some (1 / 2))) \<and>
      (\<exists>rs. map_of s ''gender'' = Some (Records rs) \<and> length rs = 2 \<and>
         set rs = {\<lparr>category = Text ''M'', respondent_count = 1, support_rate = Some 1\<rparr>,
                   \<lparr>category = Text ''F'', respondent_count = 1, support_rate = Some 0\<rparr>}))"
proof -
  have h: "has_columns \<lparr>columns = six_columns, rows = []\<rparr>"
    by (simp add: has_columns_def demographic_cols_def six_columns_def)
  show ?thesis
    using h two_record_scenario [OF h, of None None None None None None None None] by simp
qed

text \<open>
  One record whose outcome is 2: the transform stage returns a summary, with the
  rate 2.0 throughout.
\<close>

theorem outcome_two_counterexample:
  "transform_data (survey [row_d]) =
     Inr [(''overall_support_rate'', Rate (Some 2)),
          (''gender'', Records [\<lparr>category = Text ''M'', respondent_count = 1, support_rate = Some 2\<rparr>]),
          (''race'', Records [\<lparr>category = Text ''white'', respondent_count = 1, support_rate = Some 2\<rparr>]),
          (''age_group'', Records [\<lparr>category = Text ''18-29'', respondent_count = 1, support_rate = Some 2\<rparr>]),
          (''education'', Records [\<lparr>category = Text ''college'', respondent_count = 1, support_rate = Some 2\<rparr>]),
          (''income'', Records [\<lparr>category = Text ''high'', respondent_count = 1, support_rate = Some 2\<rparr>])]"
  by (simp add: eval_defs row_d_def)

text \<open>
  Claim C6, as the code has it. The transform stage does not check the outcome
  against \<open>{0, 1}\<close>. When the outcome of some record is a text, it fails with
  the \<^verbatim>\<open>TypeError\<close> of pandas, which carries no record index, and returns no
  summary. When the dataset has the six columns and at least one record, and all
  outcomes are integers whose absolute values add up to at most \<open>2 ^ 53\<close>, it
  returns a summary, whose overall support rate is the float64 nearest to the
  arithmetic mean of the outcome values, whatever integers they are.
\<close>

theorem outcome_domain_not_validated:
  "(''policy_support'' \<in> set (columns df) \<and> list_ex is_text (map policy_support (rows df)) \<longrightarrow>
      transform_data df = Inl TypeError) \<and>
   (has_columns df \<and> rows df \<noteq> [] \<and> length (rows df) \<le> 2 ^ 53 \<and>
    (\<forall>r\<in>set (rows df). \<exists>v. policy_support r = Some (Int64 v)) \<and>
    sum_list (map abs (outcomes (rows df))) \<le> 2 ^ 53 \<longrightarrow>
      (\<exists>s. transform_data df = Inr s \<and>
         map_of s ''overall_support_rate'' =
           Some (Rate (Some (float64 (arithmetic_mean (outcomes (rows df))))))))"
proof -
  have ok: "\<exists>s. transform_data df = Inr s \<and>
         map_of s ''overall_support_rate'' =
           Some (Rate (Some (float64 (arithmetic_mean (outcomes (rows df))))))"
    if h: "has_columns df" and ne: "rows df \<noteq> []" and len: "length (rows df) \<le> 2 ^ 53"
      and ints: "\<forall>r\<in>set (rows df). \<exists>v. policy_support r = Some (Int64 v)"
      and sum: "sum_list (map abs (outcomes (rows df))) \<le> 2 ^ 53"
  proof -
    have num: "numeric_outcome df"
      using ints by (fastforce simp: numeric_outcome_def list_ex_iff is_text_def)
    obtain s where s: "transform_data df = Inr s"
      by (simp add: transform_data_ok [OF h num])
    have n: "None \<notin> set (map policy_support (rows df))"
      using ints by (fastforce simp: image_iff)
    have "\<bar>sum_list (outcomes (rows df))\<bar> \<le> sum_list (map abs (outcomes (rows df)))"
      by (rule sum_list_abs)
    then have e: "\<bar>sum_list (map the_number (map policy_support (rows df)))\<bar> \<le> 2 ^ 53"
      using sum by (simp add: outcomes_def comp_def)
    have "nanmean (map policy_support (rows df)) =
        Some (float64 (arithmetic_mean (map the_number (map policy_support (rows df)))))"
      using ne len by (intro nanmean_present [OF _ n e]) simp_all
    then have "nanmean (map policy_support (rows df)) =
        Some (float64 (arithmetic_mean (outcomes (rows df))))"
      by (simp add: outcomes_def comp_def)
    then show ?thesis
      using s lookup_overall [OF h num s] by simp
  qed
  show ?thesis
    using ok transform_data_text by blast
qed

text \<open>Two records of which one has the outcome \<^verbatim>\<open>yes\<close>, and two records with the
  outcomes 2 and 0, whose rate is 1.\<close>

theorem outcome_domain_not_validated_witness:
  "list_ex is_text (map policy_support (rows (survey [row_a, row_t]))) \<and>
   transform_data (survey [row_a, row_t]) = Inl TypeError \<and>
   sum_list (map abs (outcomes (rows (survey [row_d, row_b])))) = 2 \<and>
   (\<exists>s. transform_data (survey [row_d, row_b]) = Inr s \<and>
      map_of s ''overall_support_rate'' = Some (Rate (Some 1)))"
proof -
  let ?t = "survey [row_a, row_t]" and ?d = "survey [row_d, row_b]"
  have t: "''policy_support'' \<in> set (columns ?t) \<and> list_ex is_text (map policy_support (rows ?t))"
    by (simp add: survey_def six_columns_def row_a_def row_t_def is_text_def)
  have d: "has_columns ?d \<and> rows ?d \<noteq> [] \<and> length (rows ?d) \<le> 2 ^ 53 \<and>
      (\<forall>r\<in>set (rows ?d). \<exists>v. policy_support r = Some (Int64 v)) \<and>
      sum_list (map abs (outcomes (rows ?d))) \<le> 2 ^ 53"
    by (simp add: has_columns_def demographic_cols_def survey_def six_columns_def row_d_def
        row_b_def outcomes_def)
  have s: "sum_list (map abs (outcomes (rows ?d))) = 2"
    by (simp add: survey_def row_d_def row_b_def outcomes_def)
  have m: "float64 (arithmetic_mean (outcomes (rows ?d))) = 1"
    by (simp add: survey_def row_d_def row_b_def outcomes_def arithmetic_mean_def float64_small)
  show ?thesis
    using t d s m outcome_domain_not_validated [of ?t] outcome_domain_not_validated [of ?d]
    by auto
qed

text \<open>
  Claim C10. For every dataset on which the transform stage raises nothing and
  each demographic attribute, the list of triples returned for that attribute
  holds the values observed in present cells, in strictly ascending order:
  numbers in numeric order, texts in the order of strings.
\<close>

theorem breakdown_sorted_by_category:
  assumes "has_columns df" and "numeric_outcome df"
  shows "\<exists>s. transform_data df = Inr s \<and>
    (\<exists>rs. map_of s (col_name c) = Some (Records rs) \<and>
       sorted_wrt (<) (map category rs) \<and>
       Some ` set (map category rs) = set (map (col_value c) (rows df)) - {None})"
proof -
  obtain s where s: "transform_data df = Inr s"
    by (simp add: transform_data_ok [OF assms])
  have "sorted_wrt (<) (map category (groupby_agg c (rows df)))"
    by (simp add: categories strict_sorted_iff group_keys_sorted group_keys_distinct)
  moreover have "Some ` set (map category (groupby_agg c (rows df)))
      = set (map (col_value c) (rows df)) - {None}"
    unfolding categories by (rule keys_observed)
  ultimately show ?thesis
    using s lookup_col [OF assms s] by blast
qed

text \<open>Three records whose income column holds the numbers 100, 9 and 10, and whose
  gender column holds texts.\<close>

theorem breakdown_sorted_by_category_witness:
  "has_columns (survey [row_100, row_9, row_10]) \<and>
   numeric_outcome (survey [row_100, row_9, row_10]) \<and>
   (\<exists>s. transform_data (survey [row_100, row_9, row_10]) = Inr s \<and>
      (\<exists>rs. map_of s ''income'' = Some (Records rs) \<and>
         map category rs = [Int64 9, Int64 10, Int64 100] \<and> sorted_wrt (<) (map category rs)) \<and>
      (\<exists>rs. map_of s ''gender'' = Some (Records rs) \<and>
         map category rs = [Text ''F'', Text ''M''] \<and> sorted_wrt (<) (map category rs)))"
proof -
  let ?df = "survey [row_100, row_9, row_10]"
  have h: "has_columns ?df" "numeric_outcome ?df"
    by (simp_all add: has_columns_def numeric_outcome_def demographic_cols_def is_text_def
        survey_def six_columns_def row_9_def row_10_def row_100_def)
  have i: "map category (groupby_agg Income (rows ?df)) = [Int64 9, Int64 10, Int64 100]"
    by (simp add: categories group_keys_def notna_def survey_def row_9_def row_10_def row_100_def)
  have g: "map category (groupby_agg Gender (rows ?df)) = [Text ''F'', Text ''M'']"
    by (simp add: categories group_keys_def notna_def survey_def row_9_def row_10_def row_100_def)
  obtain s where s: "transform_data ?df = Inr s"
    using breakdown_sorted_by_category [OF h, of Income] by blast
  have li: "map_of s ''income'' = Some (Records (groupby_agg Income (rows ?df)))"
    using lookup_col [OF h s, of Income] by simp
  have lg: "map_of s ''gender'' = Some (Records (groupby_agg Gender (rows ?df)))"
    using lookup_col [OF h s, of Gender] by simp
  have "sorted_wrt (<) [Int64 9, Int64 10, Int64 100]" "sorted_wrt (<) [Text ''F'', Text ''M'']"
    by (simp_all add: less_val_def)
  then show ?thesis
    using h s li lg i g by simp
qed

section \<open>Facts about the stages and the concrete runs\<close>

lemma extract_data_task: "extract_data (task name w) = extract_data w"
  by (simp add: extract_data_def task_def)

lemma load_data_Inr:
  assumes "load_data F ts gen summary w = (Inr p, w')"
  shows "p = repo_root w @ ''/docs/'' @ report_name ts \<and>
         repo_root w' = repo_root w \<and> raw_dir w' = raw_dir w \<and>
         (\<exists>lines. render F gen summary = Inr lines \<and>
            docs_dir w' = (docs_dir w)(report_name ts \<mapsto> join [CHR 0x0A] lines))"
  using assms
  by (auto simp: load_data_def Let_def split: sum.splits if_splits)


lemma pipeline_Inr:
  assumes "pipeline F ts gen w = (Inr p, w')"
  shows "p = repo_root w @ ''/docs/'' @ report_name ts \<and>
         repo_root w' = repo_root w \<and> raw_dir w' = raw_dir w \<and>
         (\<exists>df s lines. extract_data w = Inr df \<and> transform_data df = Inr s \<and>
            render F gen s = Inr lines \<and>
            docs_dir w' = (docs_dir w)(report_name ts \<mapsto> join [CHR 0x0A] lines))"
proof -
  obtain df where df: "extract_data w = Inr df"
    using assms by (cases "extract_data w") (simp_all add: pipeline_def Let_def extract_data_task)
  obtain s where s: "transform_data df = Inr s"
    using assms df
    by (cases "transform_data df") (simp_all add: pipeline_def Let_def extract_data_task)
  let ?w3 = "task ''load_data'' (task ''transform_data'' (task ''extract_data'' w))"
  have l: "load_data F ts gen s ?w3 = (Inr p, w')"
    using assms df s by (simp add: pipeline_def Let_def extract_data_task)
  have w3: "repo_root ?w3 = repo_root w" "raw_dir ?w3 = raw_dir w" "docs_dir ?w3 = docs_dir w"
    by (simp_all add: task_def)
  show ?thesis
    using load_data_Inr [OF l] df s w3 by auto
qed

lemma extract_data_cong:
  "repo_root w' = repo_root w \<Longrightarrow> raw_dir w' = raw_dir w \<Longrightarrow> extract_data w' = extract_data w"
  by (simp add: extract_data_def)

lemma blank_missing_six: "blank_missing six_columns r = r"
  by (simp add: blank_missing_def six_columns_def)

lemma concat_single: "concat_frames [survey rs] = survey rs"
proof -
  have "map (blank_missing six_columns) rs = rs"
    by (rule map_idI) (rule blank_missing_six)
  moreover have "remdups six_columns = six_columns"
    by (simp add: six_columns_def)
  ultimately show ?thesis
    by (simp add: concat_frames_def survey_def)
qed

lemma summary0: "transform_data (survey [row_a, row_b]) =
  Inr [(''overall_support_rate'', Rate (Some (1 / 2))),
       (''gender'', Records [\<lparr>category = Text ''F'', respondent_count = 1, support_rate = Some 0\<rparr>,
                             \<lparr>category = Text ''M'', respondent_count = 1, support_rate = Some 1\<rparr>]),
       (''race'', Records [\<lparr>category = Text ''black'', respondent_count = 1, support_rate = Some 0\<rparr>,
                           \<lparr>category = Text ''white'', respondent_count = 1, support_rate = Some 1\<rparr>]),
       (''age_group'', Records [\<lparr>category = Text ''18-29'', respondent_count = 1, support_rate = Some 1\<rparr>,
                           \<lparr>category = Text ''30-44'', respondent_count = 1, support_rate = Some 0\<rparr>]),
       (''education'', Records [\<lparr>category = Text ''college'', respondent_count = 2,
                           support_rate = Some (1 / 2)\<rparr>]),
       (''income'', Records [\<lparr>category = Text ''high'', respondent_count = 1, support_rate = Some 1\<rparr>,
                           \<lparr>category = Text ''low'', respondent_count = 1, support_rate = Some 0\<rparr>])]"
  by (simp add: eval_defs row_a_def row_b_def)

lemma fmt_half: "fmt3f (Some (1 / 2)) = ''0.500''"
  by (simp add: fmt3f_def rhe_def Let_def zfill_def dec_small dec3 digit_def)

lemma fmt_zero: "fmt3f (Some 0) = ''0.000''"
  by (simp add: fmt3f_def rhe_def Let_def zfill_def dec_small digit_def replicate_2_3)

lemma fmt_one: "fmt3f (Some 1) = ''1.000''"
  by (simp add: fmt3f_def rhe_def Let_def zfill_def dec_small digit_def replicate_2_3)

text \<open>The equations that evaluate a run on one of the example worlds.\<close>

lemmas run_defs = pipeline_def Let_def task_def extract_data_def load_data_def is_csv_def
  concat_single summary0 render_def render_record_def example_formats_def fmt_half fmt_zero
  fmt_one ljust_def rjust_def dec.simps digit_def em_dash_def isoformat_def strftime_def
  report_name_def zfill_def

lemma run0:
  "fst (pipeline example_formats t0 t0 world0) = Inr ''/repo/docs/report_2024-01-02_03-04-05.txt''"
  by (simp add: run_defs world0_def t0_def)

section \<open>The orchestration and the load stage: the claims\<close>




text \<open>
  Claim C8. When \<^verbatim>\<open>data/raw\<close> holds no CSV file, the run fails with the error
  that the extract stage raises for it (Python's \<^verbatim>\<open>FileNotFoundError\<close>, with the
  message naming the directory); extract is the only task that has run, and no
  file of \<^verbatim>\<open>docs\<close> has changed.
\<close>

theorem no_source_files_aborts:
  assumes "filter (\<lambda>(name, _). is_csv name) (raw_dir w) = []"
  shows "\<exists>w'. pipeline F ts gen w =
           (Inl (FileNotFoundError (''No CSV files found in '' @ repo_root w @ ''/data/raw'')), w') \<and>
         task_runs w' = task_runs w @ [''extract_data''] \<and> docs_dir w' = docs_dir w"
proof -
  have "extract_data (task ''extract_data'' w) =
        Inl (FileNotFoundError (''No CSV files found in '' @ repo_root w @ ''/data/raw''))"
    using assms by (simp add: extract_data_task) (simp add: extract_data_def)
  then show ?thesis
    by (simp add: pipeline_def Let_def task_def)
qed

text \<open>A raw directory that holds a text file only.\<close>

theorem no_source_files_aborts_witness:
  "filter (\<lambda>(name, _). is_csv name) (raw_dir world_empty) = [] \<and>
   fst (pipeline example_formats t0 t0 world_empty)
     = Inl (FileNotFoundError ''No CSV files found in /repo/data/raw'') \<and>
   task_runs (snd (pipeline example_formats t0 t0 world_empty)) = [''extract_data''] \<and>
   docs_dir (snd (pipeline example_formats t0 t0 world_empty)) = Map.empty"
proof -
  have h: "filter (\<lambda>(name, _). is_csv name) (raw_dir world_empty) = []"
    by (simp add: world_empty_def is_csv_def)
  show ?thesis
    using h no_source_files_aborts [OF h, of example_formats t0 t0] by (auto simp: world_empty_def)
qed

text \<open>
  Two runs one after the other, whose clock readings differ by a microsecond:
  both succeed and return the same path, and the second run has replaced the
  contents that the first run wrote.
\<close>

theorem same_second_same_name_counterexample:
  "t0 \<noteq> t0_later \<and> report_name t0 = report_name t0_later \<and>
   fst (pipeline example_formats t0 t0 world0) = Inr ''/repo/docs/report_2024-01-02_03-04-05.txt'' \<and>
   fst (pipeline example_formats t0_later t0_later (snd (pipeline example_formats t0 t0 world0)))
     = Inr ''/repo/docs/report_2024-01-02_03-04-05.txt'' \<and>
   docs_dir (snd (pipeline example_formats t0_later t0_later
                    (snd (pipeline example_formats t0 t0 world0))))
       ''report_2024-01-02_03-04-05.txt''
     \<noteq> docs_dir (snd (pipeline example_formats t0 t0 world0)) ''report_2024-01-02_03-04-05.txt''"
  by (simp add: run_defs world0_def t0_def t0_later_def)

text \<open>
  Claim C9, as the code has it. Every successful run returns the path
  \<^verbatim>\<open>docs/report_<YYYY-MM-DD_HH-MM-SS>.txt\<close> built from its clock reading, and
  afterwards the file of that name holds the report of this run, whatever was
  there before; the other files of \<^verbatim>\<open>docs\<close> are as before. The names of two
  clock readings are equal exactly when the readings agree in year, month, day,
  hour, minute and second. So of two successful runs, one after the other, with
  clock readings in the same second, the second returns the path of the first,
  and afterwards the file holds the report of the second run only.
\<close>

theorem report_name_per_second:
  "(pipeline F ts gen w = (Inr p, w') \<longrightarrow>
      p = repo_root w @ ''/docs/report_'' @ strftime ts @ ''.txt'' \<and>
      (\<exists>df s lines. extract_data w = Inr df \<and> transform_data df = Inr s \<and>
         render F gen s = Inr lines \<and>
         docs_dir w' =
           (docs_dir w)(''report_'' @ strftime ts @ ''.txt'' \<mapsto> join [CHR 0x0A] lines))) \<and>
   (valid_datetime ta \<and> valid_datetime tb \<longrightarrow>
      (report_name ta = report_name tb) = same_second ta tb) \<and>
   (valid_datetime ts \<and> valid_datetime ts2 \<and> same_second ts ts2 \<and>
    pipeline F ts gen w = (Inr p, w') \<and> pipeline F ts2 gen2 w' = (Inr p2, w'') \<longrightarrow>
      p2 = p \<and>
      (\<exists>df s lines2. extract_data w = Inr df \<and> transform_data df = Inr s \<and>
         render F gen2 s = Inr lines2 \<and>
         docs_dir w'' = (docs_dir w)(report_name ts \<mapsto> join [CHR 0x0A] lines2)))"
proof -
  have one: "p = repo_root w @ ''/docs/report_'' @ strftime ts @ ''.txt'' \<and>
      (\<exists>df s lines. extract_data w = Inr df \<and> transform_data df = Inr s \<and>
         render F gen s = Inr lines \<and>
         docs_dir w' =
           (docs_dir w)(''report_'' @ strftime ts @ ''.txt'' \<mapsto> join [CHR 0x0A] lines))"
    if run: "pipeline F ts gen w = (Inr p, w')"
    using pipeline_Inr [OF run] by (simp add: report_name_def)
  have names: "(report_name x = report_name y) = same_second x y"
    if "valid_datetime x" and "valid_datetime y" for x y
    using that strftime_eq_iff [of x y] report_name_eq_iff [of x y] by (simp add: same_second_def)
  have two: "p2 = p \<and>
      (\<exists>df s lines2. extract_data w = Inr df \<and> transform_data df = Inr s \<and>
         render F gen2 s = Inr lines2 \<and>
         docs_dir w'' = (docs_dir w)(report_name ts \<mapsto> join [CHR 0x0A] lines2))"
    if v: "valid_datetime ts" "valid_datetime ts2" and same: "same_second ts ts2"
      and run1: "pipeline F ts gen w = (Inr p, w')"
      and run2: "pipeline F ts2 gen2 w' = (Inr p2, w'')"
  proof -
    have n: "report_name ts2 = report_name ts"
      using names [OF v] same by simp
    have r1: "p = repo_root w @ ''/docs/'' @ report_name ts" "repo_root w' = repo_root w"
      "raw_dir w' = raw_dir w"
      using pipeline_Inr [OF run1] by simp_all
    obtain lines where d1: "docs_dir w' = (docs_dir w)(report_name ts \<mapsto> join [CHR 0x0A] lines)"
      using pipeline_Inr [OF run1] by auto
    have ex: "extract_data w' = extract_data w"
      using r1(2,3) by (rule extract_data_cong)
    obtain df s lines2 where r2: "p2 = repo_root w' @ ''/docs/'' @ report_name ts2"
      "extract_data w' = Inr df" "transform_data df = Inr s" "render F gen2 s = Inr lines2"
      "docs_dir w'' = (docs_dir w')(report_name ts2 \<mapsto> join [CHR 0x0A] lines2)"
      using pipeline_Inr [OF run2] by auto
    have "docs_dir w'' = (docs_dir w)(report_name ts \<mapsto> join [CHR 0x0A] lines2)"
      using r2(5) d1 n by simp
    then show ?thesis
      using r1 r2 n ex by auto
  qed
  show ?thesis
    using one names two by blast
qed

text \<open>A successful run, a second run in the same second on what the first left,
  and two readings one second apart.\<close>

theorem report_name_per_second_witness:
  "fst (pipeline example_formats t0 t0 world0) = Inr ''/repo/docs/report_2024-01-02_03-04-05.txt'' \<and>
   fst (pipeline example_formats t0_later t0_later (snd (pipeline example_formats t0 t0 world0)))
     = Inr ''/repo/docs/report_2024-01-02_03-04-05.txt'' \<and>
   valid_datetime t0 \<and> valid_datetime t0_later \<and> valid_datetime t1 \<and>
   same_second t0 t0_later \<and> report_name t0 = report_name t0_later \<and>
   report_name t0 \<noteq> report_name t1 \<and>
   (\<exists>df s lines2. extract_data world0 = Inr df \<and> transform_data df = Inr s \<and>
      render example_formats t0_later s = Inr lines2 \<and>
      docs_dir (snd (pipeline example_formats t0_later t0_later
                       (snd (pipeline example_formats t0 t0 world0))))
        = (docs_dir world0)(report_name t0 \<mapsto> join [CHR 0x0A] lines2))"
proof -
  let ?P = "''/repo/docs/report_2024-01-02_03-04-05.txt''"
  let ?W1 = "snd (pipeline example_formats t0 t0 world0)"
  let ?W2 = "snd (pipeline example_formats t0_later t0_later ?W1)"
  have v: "valid_datetime t0" "valid_datetime t0_later" "valid_datetime t1"
    by (simp_all add: valid_datetime_def t0_def t0_later_def t1_def)
  have s: "same_second t0 t0_later" "\<not> same_second t0 t1"
    by (simp_all add: same_second_def t0_def t0_later_def t1_def)
  have run2: "fst (pipeline example_formats t0_later t0_later ?W1) = Inr ?P"
    by (simp add: run_defs world0_def t0_def t0_later_def)
  have r1: "pipeline example_formats t0 t0 world0 = (Inr ?P, ?W1)"
    using run0 by (metis prod.collapse)
  have r2: "pipeline example_formats t0_later t0_later ?W1 = (Inr ?P, ?W2)"
    using run2 by (metis prod.collapse)
  note inst = report_name_per_second [of example_formats t0 t0 world0 ?P ?W1 _ _
      t0_later t0_later ?P ?W2]
  have a: "(report_name t0 = report_name t0_later) = same_second t0 t0_later"
    using v inst [of t0 t0_later] by blast
  have b: "(report_name t0 = report_name t1) = same_second t0 t1"
    using v inst [of t0 t1] by blast
  have c: "\<exists>df s lines2. extract_data world0 = Inr df \<and> transform_data df = Inr s \<and>
      render example_formats t0_later s = Inr lines2 \<and>
      docs_dir ?W2 = (docs_dir world0)(report_name t0 \<mapsto> join [CHR 0x0A] lines2)"
    using v(1,2) s(1) r1 r2 inst [of t0 t0] by blast
  from run0 run2 v s a b c show ?thesis
    by blast
qed

end
